theory Spec2Isabelle
  imports Main
begin

section \<open>Woodall numbers: the notebook's two predicates\<close>

text \<open>
  The notebook \<^verbatim>\<open>Woodall.ipynb\<close> defines the optimised predicate
  \<^verbatim>\<open>
  def is_woodall(z):
      if z < 1:
          return False
      w = z + 1
      woodall = lambda k, w=w: k * 2 ** k == w
      range_of_k_to_check = range(1, 4) if z < 64 else \
          range(1, int(pow(w, 1/3)) + 1)
      return any(map(woodall, range_of_k_to_check))
  \<close>
  and, in its test cell, the reference predicate
  \<^verbatim>\<open>
  def naive_is_woodall(z):
      k = 1
      w = z + 1
      candidate = k*2**k
      while candidate <= w:
          if w == candidate:
              return True
          k += 1
          candidate = k*2**k
          continue
      else:
          return False
  \<close>
  Python integers are unbounded, so they are \<^typ>\<open>int\<close> here. Every \<open>k\<close> the code
  raises 2 to is at least 1, so \<open>2 ** k\<close> is \<open>2 ^ nat k\<close>.
\<close>

subsection \<open>Errors\<close>

text \<open>
  The only exception either function can raise on an integer argument comes from
  \<^verbatim>\<open>pow(w, 1/3)\<close>: the second argument is a float, so the integer \<open>w\<close> is first
  converted to a double, and CPython raises
  \<^verbatim>\<open>OverflowError: int too large to convert to float\<close> when it does not fit.
\<close>

datatype error = OverflowError

subsection \<open>The float cube root\<close>

text \<open>
  The conversion of an integer to a double rounds to 53 significant bits, ties to even.
  The largest finite double is \<open>2^1024 - 2^971\<close>; an integer of magnitude at least
  \<open>2^1024 - 2^970\<close> (half a unit in the last place above it) rounds to \<open>2^1024\<close>,
  which is not a double, and the conversion raises.
\<close>

definition int_to_float_overflows :: "int \<Rightarrow> bool" where
  "int_to_float_overflows w = (2 ^ 1024 - 2 ^ 970 \<le> \<bar>w\<bar>)"

text \<open>
  What \<^verbatim>\<open>int(pow(w, 1/3))\<close> returns for a \<open>w\<close> that does convert is decided by the
  platform's floating-point \<^verbatim>\<open>pow\<close>, applied to the double nearest \<open>w\<close> and the double
  nearest one third. It is not computed by any code of the notebook, so the model takes
  it as a parameter \<open>int_pow_third :: int \<Rightarrow> int\<close> of \<open>is_woodall\<close>; only the
  overflow, which the language fixes, is written out.
\<close>

definition cube_root_bound :: "(int \<Rightarrow> int) \<Rightarrow> int \<Rightarrow> error + int" where
  "cube_root_bound int_pow_third w =
     (if int_to_float_overflows w then Inl OverflowError else Inr (int_pow_third w))"

subsection \<open>The optimised predicate\<close>

text \<open>The lambda \<^verbatim>\<open>woodall = lambda k, w=w: k * 2 ** k == w\<close>.\<close>

definition woodall :: "int \<Rightarrow> int \<Rightarrow> bool" where
  "woodall k w = (k * 2 ^ nat k = w)"

text \<open>
  \<^verbatim>\<open>range(1, 4)\<close> is the list \<open>[1, 2, 3]\<close>, and \<^verbatim>\<open>range(1, n + 1)\<close> is \<open>[1..n]\<close>,
  empty when \<open>n < 1\<close>.
\<close>

definition range_of_k_to_check :: "(int \<Rightarrow> int) \<Rightarrow> int \<Rightarrow> int \<Rightarrow> error + int list" where
  "range_of_k_to_check int_pow_third z w =
     (if z < 64 then Inr [1..3]
      else (case cube_root_bound int_pow_third w of
              Inl e \<Rightarrow> Inl e
            | Inr n \<Rightarrow> Inr [1..n]))"

definition is_woodall :: "(int \<Rightarrow> int) \<Rightarrow> int \<Rightarrow> error + bool" where
  "is_woodall int_pow_third z =
     (if z < 1 then Inr False
      else (let w = z + 1 in
            case range_of_k_to_check int_pow_third z w of
              Inl e \<Rightarrow> Inl e
            | Inr ks \<Rightarrow> Inr (list_ex (\<lambda>k. woodall k w) ks)))"

subsection \<open>The reference predicate\<close>

text \<open>
  The \<^verbatim>\<open>while\<close> loop has no bound of its own, so it is a partial function into
  \<^typ>\<open>bool option\<close>: \<open>None\<close> would be a loop that never exits. The state of the
  loop is \<open>k\<close> and \<open>candidate\<close>; \<open>w\<close> does not change.
\<close>

partial_function (option) naive_loop :: "int \<Rightarrow> int \<Rightarrow> int \<Rightarrow> bool option" where
  "naive_loop w k candidate =
     (if candidate \<le> w then
        (if w = candidate then Some True
         else naive_loop w (k + 1) ((k + 1) * 2 ^ nat (k + 1)))
      else Some False)"

definition naive_is_woodall :: "int \<Rightarrow> bool option" where
  "naive_is_woodall z =
     (let k = 1; w = z + 1; candidate = k * 2 ^ nat k in naive_loop w k candidate)"

subsection \<open>The published members used by the notebook's first test\<close>

definition woodalls :: "int list" where
  "woodalls =
     [1, 7, 23, 63, 159, 383, 895,
      2047, 4607, 10239, 22527,
      49151, 106495, 229375, 491519,
      1048575, 2228223, 4718591,
      9961471, 20971519, 44040191,
      92274687, 192937983, 402653183,
      838860799, 1744830463, 3623878655, 7516192767]"

section \<open>Arithmetic of \<open>k * 2 ^ k\<close>\<close>

lemma square_le_power2: "4 \<le> n \<Longrightarrow> n ^ 2 \<le> (2::nat) ^ n"
proof (induction n rule: dec_induct)
  case base
  show ?case by simp
next
  case (step n)
  have "4 * n \<le> n * n"
    using step.hyps(1) by (intro mult_le_mono) simp_all
  then have a: "2 * n + 1 \<le> n * n"
    using step.hyps(1) by linarith
  have "(Suc n) ^ 2 = n * n + (2 * n + 1)"
    by (simp add: power2_eq_square)
  then have "(Suc n) ^ 2 \<le> 2 * (n * n)"
    using a by linarith
  also have "\<dots> \<le> 2 * 2 ^ n"
    using step.IH by (simp add: power2_eq_square)
  finally show ?case by simp
qed

lemma square_le_power2_int: "4 \<le> k \<Longrightarrow> k ^ 2 \<le> (2::int) ^ nat k"
proof -
  assume k: "4 \<le> k"
  then have "4 \<le> nat k" by simp
  then have "(nat k) ^ 2 \<le> (2::nat) ^ nat k" by (rule square_le_power2)
  then have "int ((nat k) ^ 2) \<le> int (2 ^ nat k)" by (rule iffD2 [OF of_nat_le_iff])
  then show ?thesis using k by simp
qed

lemma woodall_mono: "1 \<le> j \<Longrightarrow> j \<le> k \<Longrightarrow> j * 2 ^ nat j \<le> k * (2::int) ^ nat k"
proof -
  assume j: "1 \<le> j" and jk: "j \<le> k"
  have "(2::int) ^ nat j \<le> 2 ^ nat k"
    using jk by (intro power_increasing) simp_all
  then show ?thesis
    using j jk by (intro mult_mono) simp_all
qed

lemma woodall_gt_self: "1 \<le> k \<Longrightarrow> k < k * (2::int) ^ nat k"
proof -
  assume k: "1 \<le> k"
  then obtain m where m: "nat k = Suc m" by (cases "nat k") simp_all
  have "(1::int) \<le> 2 ^ m" by simp
  then have "(2::int) \<le> 2 ^ nat k" using m by simp
  then have "k * 2 \<le> k * 2 ^ nat k" using k by (intro mult_left_mono) simp_all
  then show ?thesis using k by linarith
qed

lemma woodall_even: "1 \<le> k \<Longrightarrow> even (k * (2::int) ^ nat k)"
  by simp

lemma list_ex_upto: "list_ex P [1..n] = (\<exists>k. 1 \<le> k \<and> k \<le> n \<and> P k)"
  by (auto simp: list_ex_iff)

lemma range_1_4: "[1..3] = [1, 2, 3 :: int]"
  by (simp add: upto.simps)

section \<open>The reference predicate is the definition\<close>

lemma naive_loop_spec:
  "1 \<le> k \<Longrightarrow>
   naive_loop w k (k * 2 ^ nat k) = Some (\<exists>j. k \<le> j \<and> woodall j w)"
proof (induction "nat (w - k)" arbitrary: k rule: less_induct)
  case less
  show ?case
  proof (cases "k * 2 ^ nat k \<le> w")
    case False
    have "\<not> (\<exists>j. k \<le> j \<and> woodall j w)"
    proof
      assume "\<exists>j. k \<le> j \<and> woodall j w"
      then obtain j where j: "k \<le> j" "j * 2 ^ nat j = w"
        by (auto simp: woodall_def)
      from woodall_mono [OF less.prems j(1)] j(2) False show False by simp
    qed
    with False show ?thesis
      by (subst naive_loop.simps) simp
  next
    case True
    show ?thesis
    proof (cases "w = k * 2 ^ nat k")
      case eq: True
      then have "\<exists>j. k \<le> j \<and> woodall j w"
        by (auto simp: woodall_def intro: exI [of _ k])
      with eq show ?thesis
        by (subst naive_loop.simps) simp
    next
      case neq: False
      from woodall_gt_self [OF less.prems] True have kw: "k < w" by linarith
      then have "nat (w - (k + 1)) < nat (w - k)" by simp
      moreover have "1 \<le> k + 1" using less.prems by simp
      ultimately have IH:
        "naive_loop w (k + 1) ((k + 1) * 2 ^ nat (k + 1)) =
           Some (\<exists>j. k + 1 \<le> j \<and> woodall j w)"
        by (rule less.hyps)
      have "(\<exists>j. k + 1 \<le> j \<and> woodall j w) = (\<exists>j. k \<le> j \<and> woodall j w)"
      proof
        assume "\<exists>j. k + 1 \<le> j \<and> woodall j w"
        then obtain j where "k + 1 \<le> j" "woodall j w" by blast
        then have "k \<le> j \<and> woodall j w" by simp
        then show "\<exists>j. k \<le> j \<and> woodall j w" ..
      next
        assume "\<exists>j. k \<le> j \<and> woodall j w"
        then obtain j where j: "k \<le> j" "woodall j w" by blast
        have "j \<noteq> k" using j(2) neq by (auto simp: woodall_def)
        with j have "k + 1 \<le> j \<and> woodall j w" by simp
        then show "\<exists>j. k + 1 \<le> j \<and> woodall j w" ..
      qed
      with IH True neq show ?thesis
        by (subst naive_loop.simps) simp
    qed
  qed
qed

lemma naive_is_woodall_spec:
  "naive_is_woodall z = Some (\<exists>k. 0 < k \<and> woodall k (z + 1))"
proof -
  have "naive_loop (z + 1) 1 (1 * 2 ^ nat 1) = Some (\<exists>j. 1 \<le> j \<and> woodall j (z + 1))"
    by (rule naive_loop_spec) simp
  moreover have "(\<exists>j. 1 \<le> j \<and> woodall j (z + 1)) = (\<exists>k. 0 < k \<and> woodall k (z + 1))"
    by (auto simp: int_one_le_iff_zero_less)
  ultimately show ?thesis
    by (simp add: naive_is_woodall_def)
qed

text \<open>
  C6. The reference predicate is the mathematical definition: for every integer \<open>z\<close>,
  \<open>naive_is_woodall z\<close> returns true exactly when some positive integer \<open>k\<close> has
  \<open>k * 2 ^ k = z + 1\<close>, and false otherwise.
\<close>

theorem naive_is_woodall_is_definition:
  "naive_is_woodall z = Some (\<exists>k. 0 < k \<and> k * 2 ^ nat k = z + 1)"
  using naive_is_woodall_spec [of z] by (simp add: woodall_def)

text \<open>
  C8. The reference predicate terminates on every integer: its loop exits with a boolean.
  The reason the claim gives holds as well: \<open>k * 2 ^ k\<close> is strictly increasing from
  \<open>k = 1\<close> on, and some candidate exceeds \<open>w = z + 1\<close>.
\<close>

theorem naive_is_woodall_terminates:
  "(\<exists>b. naive_is_woodall z = Some b)
   \<and> (1 \<le> k \<longrightarrow> k * 2 ^ nat k < (k + 1) * (2::int) ^ nat (k + 1))
   \<and> (\<exists>j. 1 \<le> j \<and> z + 1 < j * 2 ^ nat j)"
proof (intro conjI impI)
  show "\<exists>b. naive_is_woodall z = Some b"
    using naive_is_woodall_spec [of z] by blast
next
  assume k: "1 \<le> k"
  have "k * 2 ^ nat k \<le> (k + 1) * (2::int) ^ nat (k + 1)"
    using k by (intro woodall_mono) simp_all
  moreover have "k * 2 ^ nat k \<noteq> (k + 1) * (2::int) ^ nat (k + 1)"
  proof
    assume eq: "k * 2 ^ nat k = (k + 1) * (2::int) ^ nat (k + 1)"
    have "nat (k + 1) = Suc (nat k)" using k by simp
    then have "(k + 1) * (2::int) ^ nat (k + 1) = (2 * k + 2) * 2 ^ nat k"
      by (simp add: algebra_simps)
    with eq have "k * (2::int) ^ nat k = (2 * k + 2) * 2 ^ nat k" by simp
    then have "k = 2 * k + 2" by simp
    with k show False by simp
  qed
  ultimately show "k * 2 ^ nat k < (k + 1) * (2::int) ^ nat (k + 1)" by simp
next
  let ?j = "max 1 (z + 1)"
  have "?j < ?j * 2 ^ nat ?j" by (rule woodall_gt_self) simp
  then have "1 \<le> ?j \<and> z + 1 < ?j * 2 ^ nat ?j" by simp
  then show "\<exists>j. 1 \<le> j \<and> z + 1 < j * 2 ^ nat j" ..
qed

theorem naive_is_woodall_terminates_witness:
  "(\<exists>b. naive_is_woodall 5 = Some b)
   \<and> (1::int) \<le> 1 \<and> (1::int) * 2 ^ nat 1 < (1 + 1) * 2 ^ nat (1 + 1)"
  using naive_is_woodall_terminates [of 5 1] by simp

text \<open>
  C9. For every integer \<open>z < 1\<close> the reference predicate returns false, although it has
  no sign check: \<open>w = z + 1 \<le> 1\<close> is below the first candidate \<open>1 * 2 ^ 1 = 2\<close>, so the
  loop body never runs.
\<close>

theorem naive_is_woodall_nonpositive:
  "z < 1 \<Longrightarrow> naive_is_woodall z = Some False"
  by (simp add: naive_is_woodall_def naive_loop.simps [of "z + 1" 1 2])

theorem naive_is_woodall_nonpositive_witness:
  "(0::int) < 1 \<and> naive_is_woodall 0 = Some False
   \<and> (-7::int) < 1 \<and> naive_is_woodall (-7) = Some False"
  using naive_is_woodall_nonpositive [of 0] naive_is_woodall_nonpositive [of "-7"] by simp

section \<open>The optimised predicate\<close>

text \<open>
  C7. For every integer \<open>z < 1\<close> (zero and all negative integers), \<open>is_woodall z\<close>
  returns false, whatever the float cube root would be: it is never computed.
\<close>

theorem is_woodall_nonpositive:
  "z < 1 \<Longrightarrow> is_woodall int_pow_third z = Inr False"
  by (simp add: is_woodall_def)

theorem is_woodall_nonpositive_witness:
  "(0::int) < 1 \<and> is_woodall (\<lambda>w. 0) 0 = Inr False
   \<and> (-7::int) < 1 \<and> is_woodall (\<lambda>w. 0) (-7) = Inr False"
  using is_woodall_nonpositive [of 0 "\<lambda>w. 0"] is_woodall_nonpositive [of "-7" "\<lambda>w. 0"]
  by simp

text \<open>
  C10. For every integer \<open>z\<close> with \<open>1 \<le> z \<le> 63\<close>, \<open>is_woodall z\<close> returns true exactly
  when \<open>z\<close> is 1, 7 or 23: the branch \<open>z < 64\<close> tries \<open>k = 1, 2, 3\<close> only, so \<open>z = 63\<close>,
  which needs \<open>k = 4\<close>, is not accepted.
\<close>

theorem is_woodall_small_range:
  "1 \<le> z \<Longrightarrow> z \<le> 63 \<Longrightarrow> is_woodall int_pow_third z = Inr (z \<in> {1, 7, 23})"
  by (auto simp: is_woodall_def range_of_k_to_check_def range_1_4 woodall_def)

theorem is_woodall_small_range_witness:
  "(1::int) \<le> 23 \<and> (23::int) \<le> 63 \<and> is_woodall (\<lambda>w. 0) 23 = Inr True
   \<and> (1::int) \<le> 63 \<and> (63::int) \<le> 63 \<and> is_woodall (\<lambda>w. 0) 63 = Inr False"
  using is_woodall_small_range [of 23 "\<lambda>w. 0"] is_woodall_small_range [of 63 "\<lambda>w. 0"]
  by simp

section \<open>The search bound\<close>

lemma woodall_cube_le:
  assumes W: "63 \<le> W" and k: "0 < k" and wk: "woodall k (W + 1)"
  shows "k ^ 3 \<le> W + 1"
proof -
  have "4 \<le> k"
  proof (rule ccontr)
    assume "\<not> 4 \<le> k"
    with k have "k \<le> 3" and "1 \<le> k" by simp_all
    then have "k * 2 ^ nat k \<le> 3 * (2::int) ^ nat 3" by (rule woodall_mono [rotated])
    with wk W show False by (simp add: woodall_def)
  qed
  then have "k ^ 2 \<le> (2::int) ^ nat k" by (rule square_le_power2_int)
  then have "k * k ^ 2 \<le> k * 2 ^ nat k" using k by (intro mult_left_mono) simp_all
  moreover have "k ^ 3 = k * k ^ 2" by (simp add: power3_eq_cube power2_eq_square)
  ultimately show ?thesis using wk by (simp add: woodall_def)
qed

lemma cube_less_imp_less:
  assumes "k ^ 3 < (b + 1) ^ 3" shows "k < b + (1::int)"
proof (rule ccontr)
  assume "\<not> k < b + 1"
  then have "b + 1 \<le> k" by simp
  then have "(b + 1) ^ 3 \<le> k ^ 3" by (rule power_mono_odd [rotated]) simp
  with assms show False by simp
qed

text \<open>
  C5. The mathematics of the search bound: every integer \<open>k \<ge> 4\<close> has \<open>k^2 \<le> 2^k\<close>;
  and for every integer \<open>W \<ge> 63\<close>, a positive integer \<open>j\<close> with \<open>W = j * 2^j - 1\<close>
  (the lambda \<open>woodall j (W + 1)\<close> of the code) has \<open>j^3 \<le> W + 1\<close>. Hence \<open>j\<close> is at most
  the integer cube root of \<open>w = W + 1\<close>: any \<open>b\<close> with \<open>w < (b + 1)^3\<close> has \<open>j \<le> b\<close>, so
  a search through \<open>1, ..., b\<close> meets \<open>j\<close>.
\<close>

theorem cube_root_search_bound:
  "(4 \<le> k \<longrightarrow> k ^ 2 \<le> (2::int) ^ nat k)
   \<and> (63 \<le> W \<and> 0 < j \<and> woodall j (W + 1) \<longrightarrow>
        j ^ 3 \<le> W + 1 \<and> (\<forall>b. W + 1 < (b + 1) ^ 3 \<longrightarrow> j \<le> b \<and> j \<in> set [1..b]))"
proof (intro conjI impI allI)
  assume "4 \<le> k"
  then show "k ^ 2 \<le> (2::int) ^ nat k" by (rule square_le_power2_int)
next
  assume h: "63 \<le> W \<and> 0 < j \<and> woodall j (W + 1)"
  then show c: "j ^ 3 \<le> W + 1" by (intro woodall_cube_le) simp_all
  fix b
  assume "W + 1 < (b + 1) ^ 3"
  with c have "j ^ 3 < (b + 1) ^ 3" by simp
  then have "j < b + 1" by (rule cube_less_imp_less)
  then show "j \<le> b" by simp
  with h show "j \<in> set [1..b]" by simp
qed

theorem cube_root_search_bound_witness:
  "(4::int) \<le> 5 \<and> (5::int) ^ 2 \<le> 2 ^ nat 5
   \<and> (63::int) \<le> 159 \<and> (0::int) < 5 \<and> woodall 5 (159 + 1)
   \<and> (5::int) ^ 3 \<le> 159 + 1 \<and> (159::int) + 1 < (5 + 1) ^ 3 \<and> (5::int) \<in> set [1..5]"
  using cube_root_search_bound [of 5 159 5] by (simp add: woodall_def)

section \<open>Where the optimised predicate and the reference part\<close>

subsection \<open>What holds of \<open>is_woodall\<close> for any float cube root\<close>

lemma is_woodall_sound:
  assumes "is_woodall int_pow_third z = Inr True"
  shows "\<exists>k. 0 < k \<and> woodall k (z + 1)"
proof -
  from assms obtain ks where
    ks: "range_of_k_to_check int_pow_third z (z + 1) = Inr ks"
    and ex: "list_ex (\<lambda>k. woodall k (z + 1)) ks"
    by (auto simp: is_woodall_def Let_def split: if_splits sum.splits)
  from ks obtain n where "ks = [1..n]"
    by (auto simp: range_of_k_to_check_def split: if_splits sum.splits)
  with ex obtain k where "1 \<le> k" "woodall k (z + 1)"
    by (auto simp: list_ex_upto)
  then have "0 < k \<and> woodall k (z + 1)" by simp
  then show ?thesis ..
qed

lemma is_woodall_raises:
  "64 \<le> z \<Longrightarrow> int_to_float_overflows (z + 1) \<Longrightarrow>
   is_woodall int_pow_third z = Inl OverflowError"
  by (simp add: is_woodall_def Let_def range_of_k_to_check_def cube_root_bound_def)

lemma is_woodall_returns:
  "z < 64 \<or> \<not> int_to_float_overflows (z + 1) \<Longrightarrow>
   \<exists>b. is_woodall int_pow_third z = Inr b"
  by (auto simp: is_woodall_def Let_def range_of_k_to_check_def cube_root_bound_def)

subsection \<open>Agreement from 64 on, for an accurate float cube root\<close>

lemma scaled_square_le_power2: "5 \<le> n \<Longrightarrow> 32 * n ^ 2 \<le> 25 * (2::nat) ^ n"
proof (induction n rule: dec_induct)
  case base
  show ?case by simp
next
  case (step n)
  have "5 * n \<le> n * n"
    using step.hyps(1) by (intro mult_le_mono) simp_all
  then have a: "2 * n + 1 \<le> n * n"
    using step.hyps(1) by linarith
  have "(Suc n) ^ 2 = n * n + (2 * n + 1)"
    by (simp add: power2_eq_square)
  then have "32 * (Suc n) ^ 2 \<le> 2 * (32 * (n * n))"
    using a by linarith
  also have "\<dots> \<le> 2 * (25 * 2 ^ n)"
    using step.IH by (simp add: power2_eq_square)
  finally show ?case by simp
qed

lemma scaled_cube_le_woodall:
  assumes k: "5 \<le> k"
  shows "32 * k ^ 3 \<le> 25 * (k * (2::int) ^ nat k)"
proof -
  from k have "5 \<le> nat k" by simp
  then have "32 * (nat k) ^ 2 \<le> 25 * (2::nat) ^ nat k"
    by (rule scaled_square_le_power2)
  then have "int (32 * (nat k) ^ 2) \<le> int (25 * 2 ^ nat k)"
    by (rule iffD2 [OF of_nat_le_iff])
  then have "32 * k ^ 2 \<le> 25 * (2::int) ^ nat k"
    using k by simp
  then have "k * (32 * k ^ 2) \<le> k * (25 * 2 ^ nat k)"
    using k by (intro mult_left_mono) simp_all
  moreover have "32 * k ^ 3 = k * (32 * k ^ 2)"
    by (simp add: power3_eq_cube power2_eq_square)
  ultimately show ?thesis by (simp add: mult.left_commute)
qed

text \<open>
  The float result enters only through the hypothesis \<open>25 * w < 32 * (n + 1) ^ 3\<close> on
  \<open>n = int_pow_third w\<close>: the truncated float cube root, plus one, is above
  \<open>0.92\<close> times the true cube root. A double-precision \<^verbatim>\<open>pow\<close> is far more accurate
  than that, so from 64 up to the overflow the two predicates agree.
\<close>

lemma is_woodall_agrees_from_64:
  assumes z: "64 \<le> z"
    and fits: "\<not> int_to_float_overflows (z + 1)"
    and accurate: "25 * (z + 1) < 32 * (int_pow_third (z + 1) + 1) ^ 3"
  shows "is_woodall int_pow_third z = Inr (\<exists>k. 0 < k \<and> woodall k (z + 1))"
    and "naive_is_woodall z = Some (\<exists>k. 0 < k \<and> woodall k (z + 1))"
proof -
  let ?w = "z + 1" and ?n = "int_pow_third (z + 1)"
  have "(\<exists>k. 1 \<le> k \<and> k \<le> ?n \<and> woodall k ?w) = (\<exists>k. 0 < k \<and> woodall k ?w)"
  proof
    assume "\<exists>k. 1 \<le> k \<and> k \<le> ?n \<and> woodall k ?w"
    then obtain k where "1 \<le> k" "woodall k ?w" by blast
    then have "0 < k \<and> woodall k ?w" by simp
    then show "\<exists>k. 0 < k \<and> woodall k ?w" ..
  next
    assume "\<exists>k. 0 < k \<and> woodall k ?w"
    then obtain k where k: "0 < k" and wk: "woodall k ?w" by blast
    have "5 \<le> k"
    proof (rule ccontr)
      assume "\<not> 5 \<le> k"
      with k have "k \<le> 4" and "1 \<le> k" by simp_all
      then have "k * 2 ^ nat k \<le> 4 * (2::int) ^ nat 4" by (rule woodall_mono [rotated])
      with wk z show False by (simp add: woodall_def)
    qed
    then have "32 * k ^ 3 \<le> 25 * (k * (2::int) ^ nat k)"
      by (rule scaled_cube_le_woodall)
    with wk accurate have "k ^ 3 < (?n + 1) ^ 3"
      by (simp add: woodall_def)
    then have "k < ?n + 1" by (rule cube_less_imp_less)
    with k wk have "1 \<le> k \<and> k \<le> ?n \<and> woodall k ?w" by simp
    then show "\<exists>k. 1 \<le> k \<and> k \<le> ?n \<and> woodall k ?w" ..
  qed
  with z fits show "is_woodall int_pow_third z = Inr (\<exists>k. 0 < k \<and> woodall k (z + 1))"
    by (simp add: is_woodall_def Let_def range_of_k_to_check_def cube_root_bound_def
        list_ex_upto)
  show "naive_is_woodall z = Some (\<exists>k. 0 < k \<and> woodall k (z + 1))"
    by (rule naive_is_woodall_spec)
qed

subsection \<open>The value 63\<close>

lemma is_woodall_63: "is_woodall int_pow_third 63 = Inr False"
  by (simp add: is_woodall_def range_of_k_to_check_def range_1_4 woodall_def)

lemma woodall_4_64: "woodall 4 64"
  by (simp add: woodall_def)

text \<open>
  C1. The claim is that \<open>is_woodall z\<close> and \<open>naive_is_woodall z\<close> agree on every
  integer. At \<open>z = 63 = 4 * 2^4 - 1\<close> they do not: the branch \<open>z < 64\<close> of
  \<open>is_woodall\<close> tries \<open>k = 1, 2, 3\<close> only and returns false, while the reference loop
  reaches \<open>k = 4\<close> and returns true.
\<close>

theorem is_woodall_differs_from_naive_at_63:
  "is_woodall int_pow_third 63 = Inr False \<and> naive_is_woodall 63 = Some True"
proof
  show "is_woodall int_pow_third 63 = Inr False" by (rule is_woodall_63)
  have "0 < (4::int) \<and> woodall 4 (63 + 1)" using woodall_4_64 by simp
  then have "\<exists>k. 0 < k \<and> woodall k (63 + 1)" ..
  then show "naive_is_woodall 63 = Some True"
    using naive_is_woodall_spec [of 63] by simp
qed

text \<open>
  C2. The claim is that \<open>is_woodall 63\<close> is true and \<open>is_woodall 64\<close> is false. The
  code returns false at both: 63 takes the branch that stops at \<open>k = 3\<close>, and 64 takes
  the cube-root branch, where no \<open>k\<close> has \<open>k * 2^k = 65\<close> since 65 is odd.
\<close>

theorem is_woodall_at_transition:
  "is_woodall int_pow_third 63 = Inr False \<and> is_woodall int_pow_third 64 = Inr False"
proof
  show "is_woodall int_pow_third 63 = Inr False" by (rule is_woodall_63)
  have "\<not> (\<exists>k. 1 \<le> k \<and> k \<le> int_pow_third 65 \<and> woodall k 65)"
  proof
    assume "\<exists>k. 1 \<le> k \<and> k \<le> int_pow_third 65 \<and> woodall k 65"
    then obtain k where k: "1 \<le> k" and "k * 2 ^ nat k = (65::int)"
      by (auto simp: woodall_def)
    with woodall_even [OF k] have "even (65::int)" by simp
    then show False by simp
  qed
  then show "is_woodall int_pow_third 64 = Inr False"
    by (simp add: is_woodall_def Let_def range_of_k_to_check_def cube_root_bound_def
        int_to_float_overflows_def list_ex_upto)
qed

text \<open>
  C3. The claim is that \<open>is_woodall\<close> is true on every member of the published set and
  false on every other integer below its largest member. 63 is in the set the notebook's
  first test uses, and \<open>is_woodall 63\<close> is false.
\<close>

theorem is_woodall_rejects_published_63:
  "63 \<in> set woodalls \<and> is_woodall int_pow_third 63 = Inr False"
proof
  show "63 \<in> set woodalls" by (simp add: woodalls_def)
  show "is_woodall int_pow_third 63 = Inr False" by (rule is_woodall_63)
qed

subsection \<open>Integers beyond the doubles\<close>

text \<open>
  C4. The claim is that \<open>is_woodall\<close> returns a boolean on every integer and that the
  cube-root bound is computed for arbitrarily large \<open>w\<close>. At \<open>z = 2^1034 - 1\<close>, which is
  the Woodall number \<open>1024 * 2^1024 - 1\<close>, \<open>w = 2^1034\<close> does not convert to a double:
  \<open>is_woodall\<close> raises \<open>OverflowError\<close>, whatever the platform's \<^verbatim>\<open>pow\<close>, while the
  reference predicate returns true.
\<close>

theorem is_woodall_raises_on_large_input:
  "is_woodall int_pow_third (2 ^ 1034 - 1) = Inl OverflowError
   \<and> naive_is_woodall (2 ^ 1034 - 1) = Some True"
proof
  show "is_woodall int_pow_third (2 ^ 1034 - 1) = Inl OverflowError"
    by (rule is_woodall_raises) (simp_all add: int_to_float_overflows_def)
  have "0 < (1024::int) \<and> woodall 1024 (2 ^ 1034 - 1 + 1)"
    by (simp add: woodall_def)
  then have "\<exists>k. 0 < k \<and> woodall k (2 ^ 1034 - 1 + 1)" ..
  then show "naive_is_woodall (2 ^ 1034 - 1) = Some True"
    using naive_is_woodall_spec [of "2 ^ 1034 - 1"] by simp
qed

end
